theory Spec2Isabelle
  imports Main "HOL-Library.Sublist"
begin

section \<open>Python exceptions\<close>

text \<open>
  The exception classes that \<^verbatim>\<open>src/pikepdf/_io.py\<close> raises, catches or lets through.
  \<open>OtherOSError\<close> stands for any \<^verbatim>\<open>OSError\<close> that is neither of the three named
  subclasses (disk full, too many open files, ...). \<open>KeyboardInterrupt\<close> stands for the
  classes that derive from \<^verbatim>\<open>BaseException\<close> but not from \<^verbatim>\<open>Exception\<close>.
\<close>

datatype exc =
    FileExistsError
  | FileNotFoundError
  | PermissionError
  | OtherOSError
  | ValueError
  | TypeError
  | RuntimeError
  | KeyboardInterrupt

text \<open>What \<^verbatim>\<open>except Exception\<close> catches.\<close>

fun is_Exception :: "exc \<Rightarrow> bool" where
  "is_Exception KeyboardInterrupt = False"
| "is_Exception _ = True"

section \<open>The guard checks\<close>

subsection \<open>\<^verbatim>\<open>check_stream_is_usable\<close>\<close>

text \<open>
  A stream, as far as the check and its documentation are concerned: whether it is an
  instance of \<^verbatim>\<open>TextIOBase\<close> (a transcoding text stream), and whether it can seek.
\<close>

record stream =
  is_TextIOBase :: bool
  seekable :: bool

text \<open>
  \<^verbatim>\<open>
  def check_stream_is_usable(stream):
      """Check that a stream is seekable and binary."""
      if isinstance(stream, TextIOBase):
          raise TypeError("stream must be binary (no transcoding) and seekable")
  \<close>
  The result is the exception raised, if any.
\<close>

definition check_stream_is_usable :: "stream \<Rightarrow> exc option" where
  "check_stream_is_usable s = (if is_TextIOBase s then Some TypeError else None)"

subsection \<open>\<^verbatim>\<open>check_different_files\<close>\<close>

text \<open>
  A path is its list of components, as \<^verbatim>\<open>pathlib\<close> keeps it; two \<^verbatim>\<open>Path\<close> objects
  are equal when their components are.
\<close>

type_synonym path = "string list"

text \<open>
  \<^verbatim>\<open>Path.samefile\<close> calls \<^verbatim>\<open>stat\<close> on the first path, then on the second, and compares
  device and inode. The filesystem is a parameter: \<open>stat p\<close> is either the exception
  that \<^verbatim>\<open>os.stat\<close> raises on \<open>p\<close> or the pair (device, inode) of the file it finds.
\<close>

type_synonym file_id = "nat \<times> nat"

definition samefile :: "(path \<Rightarrow> exc + file_id) \<Rightarrow> path \<Rightarrow> path \<Rightarrow> exc + bool" where
  "samefile stat p q =
     (case stat p of
        Inl e \<Rightarrow> Inl e
      | Inr st \<Rightarrow>
          (case stat q of
             Inl e \<Rightarrow> Inl e
           | Inr other_st \<Rightarrow> Inr (st = other_st)))"

text \<open>
  \<^verbatim>\<open>
  def check_different_files(file1, file2):
      with suppress(FileNotFoundError):
          if Path(file1) == Path(file2) or Path(file1).samefile(Path(file2)):
              raise ValueError(...)
  \<close>
  \<^verbatim>\<open>or\<close> evaluates its right operand only when the left one is false;
  \<^verbatim>\<open>suppress(FileNotFoundError)\<close> swallows that class and lets every other one through.
\<close>

definition suppress_FileNotFoundError :: "exc option \<Rightarrow> exc option" where
  "suppress_FileNotFoundError r =
     (case r of
        None \<Rightarrow> None
      | Some e \<Rightarrow> if e = FileNotFoundError then None else Some e)"

definition check_different_files :: "(path \<Rightarrow> exc + file_id) \<Rightarrow> path \<Rightarrow> path \<Rightarrow> exc option" where
  "check_different_files stat file1 file2 =
     suppress_FileNotFoundError
       (if file1 = file2 then Some ValueError
        else (case samefile stat file1 file2 of
                Inl e \<Rightarrow> Some e
              | Inr same \<Rightarrow> if same then Some ValueError else None))"

text \<open>
  The two paths name the same underlying file: they are equal as paths, or both exist
  and have the same device and inode.
\<close>

definition same_underlying_file :: "(path \<Rightarrow> exc + file_id) \<Rightarrow> path \<Rightarrow> path \<Rightarrow> bool" where
  "same_underlying_file stat file1 file2 \<longleftrightarrow>
     file1 = file2 \<or> (\<exists>i. stat file1 = Inr i \<and> stat file2 = Inr i)"

text \<open>
  Each operand either exists or is reported missing: \<^verbatim>\<open>stat\<close> fails on it with
  \<^verbatim>\<open>FileNotFoundError\<close> or not at all.
\<close>

definition exists_or_missing :: "(path \<Rightarrow> exc + file_id) \<Rightarrow> path \<Rightarrow> bool" where
  "exists_or_missing stat p \<longleftrightarrow> (case stat p of Inl e \<Rightarrow> e = FileNotFoundError | Inr _ \<Rightarrow> True)"

section \<open>The atomic writer\<close>

subsection \<open>The filesystem and the calls made on it\<close>

text \<open>
  File contents are byte strings (a \<open>char\<close> is one byte). The filesystem maps the paths
  of the regular files that exist to their contents. Directories, permissions and
  resource limits are not part of the map: what they make a call do is a failure
  injected at the place of the call (\<open>fault\<close>).
\<close>

type_synonym bytes = string

type_synonym filesystem = "path \<rightharpoonup> bytes"

text \<open>The library calls of \<^verbatim>\<open>atomic_overwrite\<close>, as they are recorded in the log.\<close>

datatype call =
    Open path string
  | Close path
  | Unlink path
  | NamedTemporaryFile path string
  | Flush path
  | Replace path path
  | Scope path

text \<open>
  The places in \<^verbatim>\<open>atomic_overwrite\<close> where a library call can raise:
  \<open>OpenX\<close> \<^verbatim>\<open>filename.open("xb")\<close>, \<open>CloseX\<close> the close at the end of that \<^verbatim>\<open>with\<close>,
  \<open>UnlinkDest\<close> \<^verbatim>\<open>filename.unlink()\<close>, \<open>OpenA\<close> \<^verbatim>\<open>filename.open("ab")\<close>, \<open>CloseA\<close> the
  close at the end of that \<^verbatim>\<open>with\<close>, \<open>MkTemp\<close> \<^verbatim>\<open>NamedTemporaryFile(...)\<close>,
  \<open>CloseTmp\<close> the one effective close of the temporary file (\<^verbatim>\<open>tf.close()\<close> in the
  handler or after the flush, or the close at the end of the \<^verbatim>\<open>with\<close> when neither
  was reached), \<open>UnlinkTmp\<close> \<^verbatim>\<open>Path(tf.name).unlink()\<close>, \<open>FlushTmp\<close> \<^verbatim>\<open>tf.flush()\<close>,
  \<open>ReplaceTmp\<close> \<^verbatim>\<open>Path(tf.name).replace(filename)\<close>.
\<close>

datatype site =
    OpenX | CloseX | UnlinkDest | OpenA | CloseA | MkTemp | CloseTmp | UnlinkTmp
  | FlushTmp | ReplaceTmp

text \<open>
  The environment of one session: the failure injected at each place (\<open>None\<close>: the call
  behaves as the filesystem map says) and the random characters that
  \<^verbatim>\<open>NamedTemporaryFile\<close> appends to the prefix.
\<close>

record env =
  fault :: "site \<Rightarrow> exc option"
  random_name :: string

record world =
  files :: filesystem
  calls :: "call list"

definition logged :: "call \<Rightarrow> world \<Rightarrow> world" where
  "logged c w = w\<lparr>calls := calls w @ [c]\<rparr>"

text \<open>
  Every call returns the exception it raises, if any, and the world it leaves.
  Mode \<^verbatim>\<open>xb\<close> creates the file and fails when it exists; mode \<^verbatim>\<open>ab\<close> creates it
  when it is missing and leaves an existing content alone.
\<close>

definition open_x :: "env \<Rightarrow> path \<Rightarrow> world \<Rightarrow> exc option \<times> world" where
  "open_x env p w =
     (let w' = logged (Open p ''xb'') w in
      case fault env OpenX of
        Some e \<Rightarrow> (Some e, w')
      | None \<Rightarrow>
          if files w' p \<noteq> None then (Some FileExistsError, w')
          else (None, w'\<lparr>files := (files w')(p \<mapsto> [])\<rparr>))"

definition open_a :: "env \<Rightarrow> path \<Rightarrow> world \<Rightarrow> exc option \<times> world" where
  "open_a env p w =
     (let w' = logged (Open p ''ab'') w in
      case fault env OpenA of
        Some e \<Rightarrow> (Some e, w')
      | None \<Rightarrow>
          if files w' p \<noteq> None then (None, w')
          else (None, w'\<lparr>files := (files w')(p \<mapsto> [])\<rparr>))"

definition close :: "env \<Rightarrow> site \<Rightarrow> path \<Rightarrow> world \<Rightarrow> exc option \<times> world" where
  "close env s p w = (fault env s, logged (Close p) w)"

definition flush :: "env \<Rightarrow> path \<Rightarrow> world \<Rightarrow> exc option \<times> world" where
  "flush env p w = (fault env FlushTmp, logged (Flush p) w)"

definition unlink :: "env \<Rightarrow> site \<Rightarrow> path \<Rightarrow> world \<Rightarrow> exc option \<times> world" where
  "unlink env s p w =
     (let w' = logged (Unlink p) w in
      case fault env s of
        Some e \<Rightarrow> (Some e, w')
      | None \<Rightarrow>
          if files w' p = None then (Some FileNotFoundError, w')
          else (None, w'\<lparr>files := (files w')(p := None)\<rparr>))"

definition replace :: "env \<Rightarrow> path \<Rightarrow> path \<Rightarrow> world \<Rightarrow> exc option \<times> world" where
  "replace env src dst w =
     (let w' = logged (Replace src dst) w in
      case fault env ReplaceTmp of
        Some e \<Rightarrow> (Some e, w')
      | None \<Rightarrow>
          if files w' src = None then (Some FileNotFoundError, w')
          else (None, w'\<lparr>files := ((files w')(src := None))(dst := files w' src)\<rparr>))"

text \<open>\<^verbatim>\<open>filename.parent\<close> and \<^verbatim>\<open>filename.name\<close>; the name of the empty path is empty.\<close>

definition parent :: "path \<Rightarrow> path" where
  "parent p = butlast p"

definition name :: "path \<Rightarrow> string" where
  "name p = (if p = [] then [] else last p)"

text \<open>
  \<^verbatim>\<open>NamedTemporaryFile(dir=d, prefix=pre, delete=False)\<close> creates a new empty file in
  \<open>d\<close> whose name is \<open>pre\<close> followed by random characters, and fails when it finds no
  free name.
\<close>

definition temp_name :: "env \<Rightarrow> path \<Rightarrow> string \<Rightarrow> path" where
  "temp_name env d pre = d @ [pre @ random_name env]"

definition named_temporary_file :: "env \<Rightarrow> path \<Rightarrow> string \<Rightarrow> world \<Rightarrow> exc option \<times> world" where
  "named_temporary_file env d pre w =
     (let w' = logged (NamedTemporaryFile d pre) w in
      case fault env MkTemp of
        Some e \<Rightarrow> (Some e, w')
      | None \<Rightarrow>
          if files w' (temp_name env d pre) \<noteq> None then (Some FileExistsError, w')
          else (None, w'\<lparr>files := (files w')(temp_name env d pre \<mapsto> [])\<rparr>))"

subsection \<open>The caller's write scope\<close>

text \<open>
  The body of the caller's \<^verbatim>\<open>with atomic_overwrite(filename) as f:\<close> is any function
  that gets the path of the file behind the handle and the filesystem, and gives back
  the filesystem it leaves and the exception it raises, if any.
\<close>

type_synonym scope = "path \<Rightarrow> filesystem \<Rightarrow> filesystem \<times> exc option"

definition run_scope :: "scope \<Rightarrow> path \<Rightarrow> world \<Rightarrow> exc option \<times> world" where
  "run_scope body h w =
     (case body h (files w) of
        (fs, r) \<Rightarrow> (r, (logged (Scope h) w)\<lparr>files := fs\<rparr>))"

text \<open>
  The scope the claims are about: it writes the bytes \<open>B\<close> through the handle, touches
  nothing else, and then returns (\<open>r = None\<close>) or raises \<open>r\<close>.
\<close>

definition writes :: "bytes \<Rightarrow> exc option \<Rightarrow> scope" where
  "writes B r = (\<lambda>h fs. (case fs h of None \<Rightarrow> fs | Some c \<Rightarrow> fs(h \<mapsto> c @ B), r))"

text \<open>A scope that removes the file behind its handle and then raises \<open>e\<close>.\<close>

definition removes_then_raises :: "exc \<Rightarrow> scope" where
  "removes_then_raises e = (\<lambda>h fs. (fs(h := None), Some e))"

subsection \<open>\<^verbatim>\<open>atomic_overwrite\<close>\<close>

text \<open>
  The end of a \<^verbatim>\<open>with\<close> on an open file closes it, on the normal and on the exceptional
  way out; an exception raised by the close replaces the one on its way.
\<close>

definition close_after :: "env \<Rightarrow> site \<Rightarrow> path \<Rightarrow> exc option \<times> world \<Rightarrow> exc option \<times> world" where
  "close_after env s p rw =
     (case rw of
        (r, w) \<Rightarrow>
          (case close env s p w of
             (Some ce, w') \<Rightarrow> (Some ce, w')
           | (None, w') \<Rightarrow> (r, w')))"

text \<open>
  \<^verbatim>\<open>
      except Exception:
          # Error while using exclusive creation mode - clean up
          with suppress(FileNotFoundError):
              filename.unlink()
          raise
  \<close>
\<close>

definition cleanup_exclusive :: "env \<Rightarrow> path \<Rightarrow> exc \<Rightarrow> world \<Rightarrow> exc option \<times> world" where
  "cleanup_exclusive env filename e w =
     (case unlink env UnlinkDest filename w of
        (r, w') \<Rightarrow>
          (case suppress_FileNotFoundError r of
             Some ue \<Rightarrow> (Some ue, w')
           | None \<Rightarrow> (Some e, w')))"

text \<open>
  \<^verbatim>\<open>
      with filename.open("ab") as stream:
          pass  # Confirm we will be able to write to the indicated destination
  \<close>
\<close>

definition probe_writable :: "env \<Rightarrow> path \<Rightarrow> world \<Rightarrow> exc option \<times> world" where
  "probe_writable env filename w =
     (case open_a env filename w of
        (Some e, w1) \<Rightarrow> (Some e, w1)
      | (None, w1) \<Rightarrow> close_after env CloseA filename (None, w1))"

text \<open>
  \<^verbatim>\<open>
          try:
              yield tf
          except Exception:
              tf.close()
              Path(tf.name).unlink()
              raise
          tf.flush()
          tf.close()
          Path(tf.name).replace(filename)
  \<close>
  with the end of \<^verbatim>\<open>with NamedTemporaryFile(...) as tf\<close> around it, which closes \<open>tf\<close>
  when it is still open and, as \<^verbatim>\<open>delete=False\<close>, removes nothing. \<open>r\<close> is what the
  caller's scope raised.
\<close>

definition finish_temp :: "env \<Rightarrow> path \<Rightarrow> path \<Rightarrow> exc option \<Rightarrow> world \<Rightarrow> exc option \<times> world" where
  "finish_temp env filename tf r w =
     (case r of
        Some e \<Rightarrow>
          if is_Exception e then
            (case close env CloseTmp tf w of
               (Some ce, w1) \<Rightarrow> (Some ce, w1)
             | (None, w1) \<Rightarrow>
                 (case unlink env UnlinkTmp tf w1 of
                    (Some ue, w2) \<Rightarrow> (Some ue, w2)
                  | (None, w2) \<Rightarrow> (Some e, w2)))
          else close_after env CloseTmp tf (Some e, w)
      | None \<Rightarrow>
          (case flush env tf w of
             (Some e, w1) \<Rightarrow> close_after env CloseTmp tf (Some e, w1)
           | (None, w1) \<Rightarrow>
               (case close env CloseTmp tf w1 of
                  (Some e, w2) \<Rightarrow> (Some e, w2)
                | (None, w2) \<Rightarrow> replace env tf filename w2)))"

text \<open>
  The second part of \<^verbatim>\<open>atomic_overwrite\<close>, from the probe on. \<open>resumed\<close> says that the
  generator has already yielded once (it got here because the \<^verbatim>\<open>FileExistsError\<close> it
  swallowed came out of the first \<^verbatim>\<open>yield\<close> or the close after it): then
  \<^verbatim>\<open>yield tf\<close> is a second yield, which \<^verbatim>\<open>contextlib\<close> answers with
  \<^verbatim>\<open>RuntimeError("generator didn't stop")\<close>; the abandoned generator leaves the
  temporary file where it is.
\<close>

definition temp_then_rename :: "env \<Rightarrow> path \<Rightarrow> scope \<Rightarrow> bool \<Rightarrow> world \<Rightarrow> exc option \<times> world" where
  "temp_then_rename env filename body resumed w =
     (case probe_writable env filename w of
        (Some e, w1) \<Rightarrow> (Some e, w1)
      | (None, w1) \<Rightarrow>
          (case named_temporary_file env (parent filename) (''.pikepdf.'' @ name filename) w1 of
             (Some e, w2) \<Rightarrow> (Some e, w2)
           | (None, w2) \<Rightarrow>
               (let tf = temp_name env (parent filename) (''.pikepdf.'' @ name filename) in
                if resumed then (Some RuntimeError, w2)
                else (case run_scope body tf w2 of
                        (r, w3) \<Rightarrow> finish_temp env filename tf r w3))))"

text \<open>
  The handlers of the first part, for an exception \<open>e\<close> that leaves the inner \<^verbatim>\<open>try\<close>:
  \<^verbatim>\<open>except FileExistsError: pass\<close> goes on to the second part,
  \<^verbatim>\<open>except Exception\<close> cleans up and re-raises, anything else passes through.
\<close>

definition exclusive_failed :: "env \<Rightarrow> path \<Rightarrow> scope \<Rightarrow> bool \<Rightarrow> exc \<Rightarrow> world \<Rightarrow> exc option \<times> world" where
  "exclusive_failed env filename body resumed e w =
     (if e = FileExistsError then temp_then_rename env filename body resumed w
      else if is_Exception e then cleanup_exclusive env filename e w
      else (Some e, w))"

text \<open>
  One session \<^verbatim>\<open>with atomic_overwrite(filename) as f: body(f)\<close>: the exception that
  leaves the \<^verbatim>\<open>with\<close> statement, if any, and the world afterwards.
  \<^verbatim>\<open>
      try:
          try:
              with filename.open("xb") as stream:
                  yield stream
              return
          except FileExistsError:
              pass
      except Exception:
          ...
  \<close>
\<close>

definition atomic_overwrite :: "env \<Rightarrow> path \<Rightarrow> scope \<Rightarrow> world \<Rightarrow> exc option \<times> world" where
  "atomic_overwrite env filename body w =
     (case open_x env filename w of
        (Some e, w1) \<Rightarrow> exclusive_failed env filename body False e w1
      | (None, w1) \<Rightarrow>
          (case close_after env CloseX filename (run_scope body filename w1) of
             (None, w2) \<Rightarrow> (None, w2)
           | (Some e, w2) \<Rightarrow> exclusive_failed env filename body True e w2))"

text \<open>An environment in which no library call fails.\<close>

definition no_faults :: "string \<Rightarrow> env" where
  "no_faults rnd = \<lparr>fault = (\<lambda>_. None), random_name = rnd\<rparr>"

text \<open>An environment in which exactly the call at place \<open>s\<close> fails, with \<open>e\<close>.\<close>

definition one_fault :: "site \<Rightarrow> exc \<Rightarrow> string \<Rightarrow> env" where
  "one_fault s e rnd = \<lparr>fault = (\<lambda>t. if t = s then Some e else None), random_name = rnd\<rparr>"

text \<open>The path of the staging file of a session on \<open>filename\<close>.\<close>

definition staging_path :: "env \<Rightarrow> path \<Rightarrow> path" where
  "staging_path env filename = temp_name env (parent filename) (''.pikepdf.'' @ name filename)"

text \<open>
  A path matches the staging-name pattern of \<open>filename\<close>: it lies in the parent
  directory of \<open>filename\<close> and its name starts with \<^verbatim>\<open>.pikepdf.\<close> and the name of
  \<open>filename\<close>.
\<close>

definition staging_pattern :: "path \<Rightarrow> path \<Rightarrow> bool" where
  "staging_pattern filename q \<longleftrightarrow>
     q \<noteq> [] \<and> parent q = parent filename \<and> prefix (''.pikepdf.'' @ name filename) (name q)"

section \<open>Properties of the guard checks\<close>

text \<open>
  C8, at the input where the code leaves its documentation: a binary stream that cannot
  seek (the read end of a pipe opened in mode \<^verbatim>\<open>rb\<close>) is not a \<^verbatim>\<open>TextIOBase\<close>, so the
  check returns without raising \<^verbatim>\<open>TypeError\<close>, although its docstring and its message
  ask for a seekable stream.
\<close>

theorem check_stream_is_usable_accepts_unseekable:
  "check_stream_is_usable \<lparr>is_TextIOBase = False, seekable = False\<rparr> = None"
  by (simp add: check_stream_is_usable_def)

text \<open>
  C9 as stated, refuted where \<^verbatim>\<open>stat\<close> fails otherwise than with
  \<^verbatim>\<open>FileNotFoundError\<close>: the second operand does not exist, the two paths differ, and
  \<^verbatim>\<open>stat\<close> on the first operand raises \<^verbatim>\<open>PermissionError\<close>.
  \<^verbatim>\<open>suppress(FileNotFoundError)\<close> lets that exception through, so the check raises it
  in place of returning "not the same file".
\<close>

theorem check_different_files_other_stat_failure:
  "check_different_files
     (\<lambda>p. if p = [''locked'', ''in.pdf''] then Inl PermissionError else Inl FileNotFoundError)
     [''locked'', ''in.pdf''] [''out.pdf''] = Some PermissionError"
  by (simp add: check_different_files_def samefile_def suppress_FileNotFoundError_def)

text \<open>
  C9 as amended: when \<^verbatim>\<open>stat\<close> fails on neither operand otherwise than with
  \<^verbatim>\<open>FileNotFoundError\<close> (each operand either exists or is missing),
  \<^verbatim>\<open>check_different_files\<close> raises \<^verbatim>\<open>ValueError\<close> exactly when the two paths name the
  same underlying file (equal paths, or same device and inode), and returns without
  error exactly when they do not; a missing operand makes the identity comparison count
  as "not the same file".
\<close>

theorem check_different_files_spec:
  assumes "exists_or_missing stat file1" and "exists_or_missing stat file2"
  shows "(check_different_files stat file1 file2 = Some ValueError
            \<longleftrightarrow> same_underlying_file stat file1 file2)
       \<and> (check_different_files stat file1 file2 = None
            \<longleftrightarrow> \<not> same_underlying_file stat file1 file2)
       \<and> (file1 \<noteq> file2 \<and> (stat file1 = Inl FileNotFoundError \<or> stat file2 = Inl FileNotFoundError)
            \<longrightarrow> check_different_files stat file1 file2 = None)"
  using assms
  by (auto simp: check_different_files_def samefile_def suppress_FileNotFoundError_def
        same_underlying_file_def exists_or_missing_def
      split: sum.splits if_splits)

theorem check_different_files_spec_witness:
  "exists_or_missing (\<lambda>p. if p = [''in.pdf''] then Inr (1, 7) else Inl FileNotFoundError) [''in.pdf'']
   \<and> exists_or_missing (\<lambda>p. if p = [''in.pdf''] then Inr (1, 7) else Inl FileNotFoundError) [''out.pdf'']
   \<and> check_different_files
        (\<lambda>p. if p = [''in.pdf''] then Inr (1, 7) else Inl FileNotFoundError)
        [''in.pdf''] [''out.pdf''] = None"
proof -
  let ?stat = "\<lambda>p::path. if p = [''in.pdf''] then Inr (1::nat, 7::nat) else Inl FileNotFoundError"
  have a: "exists_or_missing ?stat [''in.pdf'']"
    by (simp add: exists_or_missing_def)
  have b: "exists_or_missing ?stat [''out.pdf'']"
    by (simp add: exists_or_missing_def)
  from check_different_files_spec [OF a b] a b show ?thesis
    by (simp add: same_underlying_file_def)
qed

text \<open>
  C10: two arguments that are equal as paths make \<^verbatim>\<open>check_different_files\<close> raise
  \<^verbatim>\<open>ValueError\<close> whatever the filesystem answers, also when \<^verbatim>\<open>stat\<close> would report the
  path missing: the equality test decides before \<^verbatim>\<open>samefile\<close> is evaluated.
\<close>

theorem check_different_files_equal_paths:
  "check_different_files stat file file = Some ValueError"
  by (simp add: check_different_files_def suppress_FileNotFoundError_def)

section \<open>Properties of the atomic writer\<close>

subsection \<open>What each call does\<close>

lemma open_x_result:
  assumes "open_x env p w = (r, w')"
  shows "calls w' = calls w @ [Open p ''xb'']"
    and "r = None \<Longrightarrow> fault env OpenX = None \<and> files w p = None \<and> files w' = (files w)(p \<mapsto> [])"
    and "r \<noteq> None \<Longrightarrow> files w' = files w"
    and "r \<noteq> None \<Longrightarrow> fault env OpenX \<noteq> None \<or> files w p \<noteq> None"
  using assms by (auto simp: open_x_def logged_def Let_def split: option.splits if_splits)

lemma open_a_result:
  assumes "open_a env p w = (r, w')"
  shows "calls w' = calls w @ [Open p ''ab'']"
    and "r = fault env OpenA"
    and "files w p \<noteq> None \<Longrightarrow> files w' = files w"
    and "r \<noteq> None \<Longrightarrow> files w' = files w"
    and "q \<noteq> p \<Longrightarrow> files w' q = files w q"
  using assms by (auto simp: open_a_def logged_def Let_def split: option.splits if_splits)

lemma close_result:
  assumes "close env s p w = (r, w')"
  shows "calls w' = calls w @ [Close p]" and "files w' = files w" and "r = fault env s"
  using assms by (auto simp: close_def logged_def)

lemma flush_result:
  assumes "flush env p w = (r, w')"
  shows "calls w' = calls w @ [Flush p]" and "files w' = files w" and "r = fault env FlushTmp"
  using assms by (auto simp: flush_def logged_def)

lemma unlink_result:
  assumes "unlink env s p w = (r, w')"
  shows "calls w' = calls w @ [Unlink p]"
    and "r = None \<Longrightarrow> fault env s = None \<and> files w p \<noteq> None \<and> files w' = (files w)(p := None)"
    and "r \<noteq> None \<Longrightarrow> files w' = files w"
    and "fault env s = None \<Longrightarrow> files w' p = None"
    and "q \<noteq> p \<Longrightarrow> files w' q = files w q"
    and "fault env s = None \<Longrightarrow> files w p \<noteq> None \<Longrightarrow> r = None"
    and "fault env s = None \<Longrightarrow> files w p = None \<Longrightarrow> r = Some FileNotFoundError"
    and "fault env s = Some e \<Longrightarrow> r = Some e"
  using assms by (auto simp: unlink_def logged_def Let_def split: option.splits if_splits)

lemma replace_result:
  assumes "replace env src dst w = (r, w')"
  shows "calls w' = calls w @ [Replace src dst]"
    and "r = None \<Longrightarrow> files w src \<noteq> None \<and> files w' dst = files w src
           \<and> files w' = ((files w)(src := None))(dst := files w src)"
    and "r \<noteq> None \<Longrightarrow> files w' = files w"
    and "fault env ReplaceTmp = None \<Longrightarrow> files w src \<noteq> None \<Longrightarrow> r = None"
  using assms by (auto simp: replace_def logged_def Let_def split: option.splits if_splits)

lemma named_temporary_file_result:
  assumes "named_temporary_file env d pre w = (r, w')"
  shows "calls w' = calls w @ [NamedTemporaryFile d pre]"
    and "r = None \<Longrightarrow> fault env MkTemp = None \<and> files w (temp_name env d pre) = None
           \<and> files w' = (files w)(temp_name env d pre \<mapsto> [])"
    and "r \<noteq> None \<Longrightarrow> files w' = files w"
    and "fault env MkTemp = None \<Longrightarrow> files w (temp_name env d pre) = None \<Longrightarrow> r = None"
  using assms by (auto simp: named_temporary_file_def logged_def Let_def split: option.splits if_splits)

lemma run_scope_writes:
  assumes "run_scope (writes B r0) h w = (r, w')"
  shows "r = r0" and "calls w' = calls w @ [Scope h]"
    and "files w h = Some c \<Longrightarrow> files w' = (files w)(h \<mapsto> c @ B)"
    and "files w h = None \<Longrightarrow> files w' = files w"
    and "q \<noteq> h \<Longrightarrow> files w' q = files w q"
  using assms by (auto simp: run_scope_def writes_def logged_def split: option.splits)

lemma close_after_result:
  assumes "close_after env s p (r0, w) = (r, w')"
  shows "calls w' = calls w @ [Close p]" and "files w' = files w"
    and "r = (case fault env s of Some ce \<Rightarrow> Some ce | None \<Rightarrow> r0)"
  using assms by (auto simp: close_after_def close_def logged_def split: option.splits)

lemma probe_writable_result:
  assumes "probe_writable env p w = (r, w')"
  shows "files w p \<noteq> None \<Longrightarrow> files w' = files w"
    and "q \<noteq> p \<Longrightarrow> files w' q = files w q"
    and "r = (case fault env OpenA of Some e \<Rightarrow> Some e | None \<Rightarrow> fault env CloseA)"
    and "calls w' = (if fault env OpenA = None then calls w @ [Open p ''ab'', Close p]
                     else calls w @ [Open p ''ab''])"
  using assms
  by (auto simp: probe_writable_def open_a_def close_after_def close_def logged_def Let_def
      split: option.splits if_splits)

subsection \<open>Sessions that end without an error\<close>

lemma finish_temp_commit:
  assumes "finish_temp env filename tf None w = (None, w')"
  shows "files w tf \<noteq> None"
    and "files w' = ((files w)(tf := None))(filename := files w tf)"
    and "calls w' = calls w @ [Flush tf, Close tf, Replace tf filename]"
  using assms
  by (auto simp: finish_temp_def flush_def close_def replace_def close_after_def logged_def Let_def
      split: option.splits if_splits)

lemma cleanup_exclusive_raises:
  assumes "cleanup_exclusive env filename e w = (r, w')"
  shows "r \<noteq> None"
  using assms
  by (auto simp: cleanup_exclusive_def suppress_FileNotFoundError_def split: prod.splits option.splits)

lemma temp_then_rename_commit:
  assumes "temp_then_rename env filename (writes B None) resumed w = (None, w')"
  shows "files w' filename = Some B"
    and "calls w' = calls w @
           [Open filename ''ab'', Close filename,
            NamedTemporaryFile (parent filename) (''.pikepdf.'' @ name filename),
            Scope (staging_path env filename), Flush (staging_path env filename),
            Close (staging_path env filename),
            Replace (staging_path env filename) filename]"
proof -
  let ?tf = "temp_name env (parent filename) (''.pikepdf.'' @ name filename)"
  obtain r1 w1 where p: "probe_writable env filename w = (r1, w1)"
    by (cases "probe_writable env filename w")
  obtain r2 w2 where t: "named_temporary_file env (parent filename) (''.pikepdf.'' @ name filename) w1 = (r2, w2)"
    by (cases "named_temporary_file env (parent filename) (''.pikepdf.'' @ name filename) w1")
  obtain r3 w3 where s: "run_scope (writes B None) ?tf w2 = (r3, w3)"
    by (cases "run_scope (writes B None) ?tf w2")
  from assms p t s have r1: "r1 = None" and r2: "r2 = None" and nres: "\<not> resumed"
    and fin: "finish_temp env filename ?tf r3 w3 = (None, w')"
    by (auto simp: temp_then_rename_def Let_def split: option.splits if_splits)
  from named_temporary_file_result(2) [OF t r2] have "files w2 ?tf = Some []"
    by simp
  with run_scope_writes [OF s] have r3: "r3 = None" and "files w3 ?tf = Some B"
    by simp_all
  with finish_temp_commit(2) [of env filename ?tf w3 w'] fin show "files w' filename = Some B"
    by simp
  from probe_writable_result(3) [OF p] r1 have no_a: "fault env OpenA = None"
    by (simp split: option.splits)
  from probe_writable_result(4) [OF p] no_a
  have c1: "calls w1 = calls w @ [Open filename ''ab'', Close filename]"
    by simp
  have c2: "calls w2 = calls w1 @ [NamedTemporaryFile (parent filename) (''.pikepdf.'' @ name filename)]"
    by (rule named_temporary_file_result(1) [OF t])
  have c3: "calls w3 = calls w2 @ [Scope ?tf]"
    by (rule run_scope_writes(2) [OF s])
  from fin r3 have c4: "calls w' = calls w3 @ [Flush ?tf, Close ?tf, Replace ?tf filename]"
    by (simp add: finish_temp_commit(3))
  from c1 c2 c3 c4 show "calls w' = calls w @
           [Open filename ''ab'', Close filename,
            NamedTemporaryFile (parent filename) (''.pikepdf.'' @ name filename),
            Scope (staging_path env filename), Flush (staging_path env filename),
            Close (staging_path env filename),
            Replace (staging_path env filename) filename]"
    by (simp add: staging_path_def)
qed

lemma exclusive_failed_commit:
  assumes "exclusive_failed env filename (writes B None) resumed e w = (None, w')"
  shows "temp_then_rename env filename (writes B None) resumed w = (None, w')"
  using assms cleanup_exclusive_raises [of env filename e w None w']
  by (auto simp: exclusive_failed_def split: if_splits)

text \<open>
  The two ways in which a session of a well-behaved writer can end without an error: in
  exclusive-create mode, or in temp-then-rename mode entered before the first yield.
\<close>

lemma atomic_overwrite_commit_modes:
  assumes "atomic_overwrite env filename (writes B None) w = (None, w')"
  shows "(files w' filename = Some B
            \<and> calls w' = calls w @ [Open filename ''xb'', Scope filename, Close filename]
            \<and> files w filename = None)
       \<or> (\<exists>w1. temp_then_rename env filename (writes B None) False w1 = (None, w')
            \<and> calls w1 = calls w @ [Open filename ''xb''] \<and> files w1 = files w
            \<and> (fault env OpenX \<noteq> None \<or> files w filename \<noteq> None))"
proof -
  obtain r1 w1 where o: "open_x env filename w = (r1, w1)"
    by (cases "open_x env filename w")
  show ?thesis
  proof (cases r1)
    case (Some e)
    with assms o have "exclusive_failed env filename (writes B None) False e w1 = (None, w')"
      by (simp add: atomic_overwrite_def)
    then have "temp_then_rename env filename (writes B None) False w1 = (None, w')"
      by (rule exclusive_failed_commit)
    moreover from open_x_result(1,3,4) [OF o] Some
    have "calls w1 = calls w @ [Open filename ''xb'']" and "files w1 = files w"
      and "fault env OpenX \<noteq> None \<or> files w filename \<noteq> None"
      by simp_all
    ultimately show ?thesis by blast
  next
    case None
    obtain r2 w2 where s: "run_scope (writes B None) filename w1 = (r2, w2)"
      by (cases "run_scope (writes B None) filename w1")
    obtain r3 w3 where c: "close_after env CloseX filename (r2, w2) = (r3, w3)"
      by (cases "close_after env CloseX filename (r2, w2)")
    from open_x_result(2) [OF o None]
    have absent: "files w filename = None" and "files w1 filename = Some []"
      by simp_all
    with run_scope_writes [OF s] have "files w2 filename = Some B"
      by simp
    with close_after_result(2) [OF c] have w3: "files w3 filename = Some B"
      by simp
    have log: "calls w3 = calls w @ [Open filename ''xb'', Scope filename, Close filename]"
      using open_x_result(1) [OF o] run_scope_writes(2) [OF s] close_after_result(1) [OF c]
      by simp
    show ?thesis
    proof (cases r3)
      case None
      with assms o s c \<open>r1 = None\<close> have "w' = w3"
        by (simp add: atomic_overwrite_def)
      with w3 log absent show ?thesis by simp
    next
      case (Some e)
      with assms o s c \<open>r1 = None\<close>
      have "exclusive_failed env filename (writes B None) True e w3 = (None, w')"
        by (simp add: atomic_overwrite_def)
      then have "temp_then_rename env filename (writes B None) True w3 = (None, w')"
        by (rule exclusive_failed_commit)
      then have False
        by (auto simp: temp_then_rename_def Let_def split: prod.splits option.splits)
      then show ?thesis ..
    qed
  qed
qed

text \<open>What a session that ends without an error leaves behind, and by which calls.\<close>

lemma commit_if_no_error:
  assumes "fst (atomic_overwrite env D (writes B None) w) = None"
  shows "files (snd (atomic_overwrite env D (writes B None) w)) D = Some B
       \<and> (files w D = None \<and> fault env OpenX = None \<longrightarrow>
            calls (snd (atomic_overwrite env D (writes B None) w))
              = calls w @ [Open D ''xb'', Scope D, Close D])
       \<and> (files w D \<noteq> None \<longrightarrow>
            calls (snd (atomic_overwrite env D (writes B None) w))
              = calls w @
                [Open D ''xb'', Open D ''ab'', Close D,
                 NamedTemporaryFile (parent D) (''.pikepdf.'' @ name D),
                 Scope (staging_path env D), Flush (staging_path env D),
                 Close (staging_path env D), Replace (staging_path env D) D])"
proof -
  obtain w' where run: "atomic_overwrite env D (writes B None) w = (None, w')"
    using assms by (cases "atomic_overwrite env D (writes B None) w") simp
  from atomic_overwrite_commit_modes [OF run]
  consider (exclusive) "files w' D = Some B"
      "calls w' = calls w @ [Open D ''xb'', Scope D, Close D]" "files w D = None"
    | (staged) w1 where "temp_then_rename env D (writes B None) False w1 = (None, w')"
      "calls w1 = calls w @ [Open D ''xb'']"
      "fault env OpenX \<noteq> None \<or> files w D \<noteq> None"
    by (elim disjE exE conjE) blast+
  then have "files w' D = Some B
       \<and> (files w D = None \<and> fault env OpenX = None \<longrightarrow>
            calls w' = calls w @ [Open D ''xb'', Scope D, Close D])
       \<and> (files w D \<noteq> None \<longrightarrow>
            calls w' = calls w @
                [Open D ''xb'', Open D ''ab'', Close D,
                 NamedTemporaryFile (parent D) (''.pikepdf.'' @ name D),
                 Scope (staging_path env D), Flush (staging_path env D),
                 Close (staging_path env D), Replace (staging_path env D) D])"
  proof cases
    case exclusive
    then show ?thesis by simp
  next
    case staged
    from temp_then_rename_commit [OF staged(1)] staged(2,3) show ?thesis
      by auto
  qed
  with run show ?thesis by simp
qed

subsection \<open>Evaluating a session on a concrete world\<close>

lemmas session_eval =
  atomic_overwrite_def exclusive_failed_def temp_then_rename_def finish_temp_def
  probe_writable_def cleanup_exclusive_def suppress_FileNotFoundError_def
  open_x_def open_a_def close_def flush_def unlink_def replace_def
  named_temporary_file_def run_scope_def close_after_def logged_def
  writes_def removes_then_raises_def no_faults_def one_fault_def
  staging_path_def temp_name_def parent_def name_def Let_def

subsection \<open>The writability probe\<close>

lemma exclusive_open_fails_on_existing:
  assumes "files w D = Some c" and "fault env OpenX = None"
  shows "open_x env D w = (Some FileExistsError, logged (Open D ''xb'') w)"
  using assms by (simp add: open_x_def logged_def Let_def)

lemma enters_temp_then_rename:
  assumes "files w D = Some c" and "fault env OpenX = None"
  shows "atomic_overwrite env D body w = temp_then_rename env D body False (logged (Open D ''xb'') w)"
  using assms
  by (simp add: atomic_overwrite_def exclusive_open_fails_on_existing exclusive_failed_def)

lemma probe_failure_propagates:
  assumes "probe_writable env D w = (Some e, w')"
  shows "temp_then_rename env D body resumed w = (Some e, w')"
  using assms by (simp add: temp_then_rename_def)

text \<open>
  C7: let the destination exist, so that the exclusive open fails with
  \<^verbatim>\<open>FileExistsError\<close> and the second part is entered. The probe opens the destination in
  mode \<^verbatim>\<open>ab\<close> and closes it, and leaves every file as it was. If the probe raises, the
  session raises the same exception in the world the probe left: every file is as before
  the session, and the only calls made are the two opens and, if the open succeeded, the
  close, so no temporary file was created, no scope was run and no rename was attempted.
\<close>

theorem probe_leaves_destination:
  assumes "files w D = Some c" and "fault env OpenX = None"
  shows "atomic_overwrite env D body w = temp_then_rename env D body False (logged (Open D ''xb'') w)
       \<and> files (snd (probe_writable env D (logged (Open D ''xb'') w))) = files w
       \<and> calls (snd (probe_writable env D (logged (Open D ''xb'') w)))
           = calls w @ (if fault env OpenA = None
                        then [Open D ''xb'', Open D ''ab'', Close D]
                        else [Open D ''xb'', Open D ''ab''])
       \<and> (\<forall>e. fst (probe_writable env D (logged (Open D ''xb'') w)) = Some e \<longrightarrow>
            atomic_overwrite env D body w
              = (Some e, snd (probe_writable env D (logged (Open D ''xb'') w))))"
proof -
  let ?w1 = "logged (Open D ''xb'') w"
  obtain r w2 where p: "probe_writable env D ?w1 = (r, w2)"
    by (cases "probe_writable env D ?w1")
  have ex: "files ?w1 D \<noteq> None" and c1: "calls ?w1 = calls w @ [Open D ''xb'']"
    and f1: "files ?w1 = files w"
    using assms(1) by (simp_all add: logged_def)
  have enter: "atomic_overwrite env D body w = temp_then_rename env D body False ?w1"
    using assms by (rule enters_temp_then_rename)
  have f2: "files w2 = files w"
    using probe_writable_result(1) [OF p ex] f1 by simp
  have c2: "calls w2 = calls w @ (if fault env OpenA = None
                        then [Open D ''xb'', Open D ''ab'', Close D]
                        else [Open D ''xb'', Open D ''ab''])"
    using probe_writable_result(4) [OF p] c1 by simp
  have "atomic_overwrite env D body w = (Some e, w2)" if "r = Some e" for e
    using that p enter probe_failure_propagates [of env D ?w1 e w2 body False] by simp
  with enter f2 c2 p show ?thesis by simp
qed

theorem probe_leaves_destination_witness:
  "atomic_overwrite (one_fault OpenA PermissionError ''x1'') [''out'', ''d.pdf''] (writes ''new'' None)
      \<lparr>files = [[''out'', ''d.pdf''] \<mapsto> ''old''], calls = []\<rparr>
     = (Some PermissionError,
        \<lparr>files = [[''out'', ''d.pdf''] \<mapsto> ''old''],
         calls = [Open [''out'', ''d.pdf''] ''xb'', Open [''out'', ''d.pdf''] ''ab'']\<rparr>)"
proof -
  let ?env = "one_fault OpenA PermissionError ''x1''"
  let ?D = "[''out'', ''d.pdf'']"
  let ?w = "\<lparr>files = [?D \<mapsto> ''old''], calls = []\<rparr>"
  have a: "files ?w ?D = Some ''old''" by simp
  have b: "fault ?env OpenX = None" by (simp add: one_fault_def)
  have c: "probe_writable ?env ?D (logged (Open ?D ''xb'') ?w)
             = (Some PermissionError,
                \<lparr>files = [?D \<mapsto> ''old''], calls = [Open ?D ''xb'', Open ?D ''ab'']\<rparr>)"
    by (simp add: probe_writable_def open_a_def logged_def one_fault_def Let_def)
  from probe_leaves_destination [OF a b, of "writes ''new'' None"]
  have "\<forall>e. fst (probe_writable ?env ?D (logged (Open ?D ''xb'') ?w)) = Some e \<longrightarrow>
          atomic_overwrite ?env ?D (writes ''new'' None) ?w
            = (Some e, snd (probe_writable ?env ?D (logged (Open ?D ''xb'') ?w)))"
    by (elim conjE) assumption
  with c show ?thesis
    by simp
qed

subsection \<open>A failing exclusive open\<close>

text \<open>
  C5 as stated, refuted where the parent directory is missing: the exclusive open raises
  \<^verbatim>\<open>FileNotFoundError\<close>, which is not \<^verbatim>\<open>FileExistsError\<close>, and the session still calls
  \<^verbatim>\<open>filename.unlink()\<close> before it raises.
\<close>

theorem exclusive_open_failure_unlinks:
  "calls (snd (atomic_overwrite (one_fault OpenX FileNotFoundError ''x1'')
                 [''missing'', ''d.pdf''] (writes ''new'' None)
                 \<lparr>files = Map.empty, calls = []\<rparr>))
     = [Open [''missing'', ''d.pdf''] ''xb'', Unlink [''missing'', ''d.pdf'']]"
  by (simp add: session_eval)

text \<open>
  The run of a session whose exclusive open fails with an exception other than
  \<^verbatim>\<open>FileExistsError\<close>, call by call.
\<close>

lemma failed_exclusive_open_run:
  assumes "fault env OpenX = Some e" and "e \<noteq> FileExistsError"
  shows "fst (atomic_overwrite env D body w) \<noteq> None
       \<and> calls (snd (atomic_overwrite env D body w))
           = calls w @ (if is_Exception e then [Open D ''xb'', Unlink D] else [Open D ''xb''])
       \<and> (is_Exception e \<and> fault env UnlinkDest = None \<longrightarrow>
            fst (atomic_overwrite env D body w) = Some e
            \<and> files (snd (atomic_overwrite env D body w)) = (files w)(D := None))
       \<and> (is_Exception e \<and> fault env UnlinkDest = Some FileNotFoundError \<longrightarrow>
            fst (atomic_overwrite env D body w) = Some e
            \<and> files (snd (atomic_overwrite env D body w)) = files w)
       \<and> (\<forall>ue. is_Exception e \<and> fault env UnlinkDest = Some ue \<and> ue \<noteq> FileNotFoundError \<longrightarrow>
            fst (atomic_overwrite env D body w) = Some ue
            \<and> files (snd (atomic_overwrite env D body w)) = files w)
       \<and> (\<not> is_Exception e \<longrightarrow>
            fst (atomic_overwrite env D body w) = Some e
            \<and> files (snd (atomic_overwrite env D body w)) = files w)"
proof -
  let ?w1 = "logged (Open D ''xb'') w"
  have o: "open_x env D w = (Some e, ?w1)"
    using assms(1) by (simp add: open_x_def Let_def)
  have run: "atomic_overwrite env D body w
      = (if is_Exception e then cleanup_exclusive env D e ?w1 else (Some e, ?w1))"
    using assms(2) by (simp add: atomic_overwrite_def o exclusive_failed_def)
  show ?thesis
  proof (cases "is_Exception e")
    case False
    with run show ?thesis by (simp add: logged_def)
  next
    case True
    obtain r w2 where u: "unlink env UnlinkDest D ?w1 = (r, w2)"
      by (cases "unlink env UnlinkDest D ?w1")
    have res: "atomic_overwrite env D body w
        = ((case suppress_FileNotFoundError r of Some ue \<Rightarrow> Some ue | None \<Rightarrow> Some e), w2)"
      using run True u by (simp add: cleanup_exclusive_def split: option.splits)
    have log: "calls w2 = calls w @ [Open D ''xb'', Unlink D]"
      using unlink_result(1) [OF u] by (simp add: logged_def)
    have f1: "files ?w1 = files w" by (simp add: logged_def)
    have a: "fst (atomic_overwrite env D body w) = Some e
        \<and> files (snd (atomic_overwrite env D body w)) = (files w)(D := None)"
      if nf: "fault env UnlinkDest = None"
    proof (cases "files w D")
      case None
      with unlink_result(7) [OF u nf] f1 have r: "r = Some FileNotFoundError" by simp
      with unlink_result(3) [OF u] f1 None have "files w2 = (files w)(D := None)"
        by (simp add: fun_upd_idem)
      with res r show ?thesis by (simp add: suppress_FileNotFoundError_def)
    next
      case (Some c)
      with unlink_result(6) [OF u nf] f1 have r: "r = None" by simp
      with unlink_result(2) [OF u] f1 have "files w2 = (files w)(D := None)"
        by simp
      with res r show ?thesis by (simp add: suppress_FileNotFoundError_def)
    qed
    have b: "fst (atomic_overwrite env D body w)
          = (if ue = FileNotFoundError then Some e else Some ue)
        \<and> files (snd (atomic_overwrite env D body w)) = files w"
      if fl: "fault env UnlinkDest = Some ue" for ue
    proof -
      from unlink_result(8) [OF u fl] have r: "r = Some ue" .
      with unlink_result(3) [OF u] f1 have "files w2 = files w" by simp
      with res r show ?thesis by (simp add: suppress_FileNotFoundError_def)
    qed
    from True res log a b show ?thesis
      by (auto split: option.splits)
  qed
qed

text \<open>
  C5 as amended: let the exclusive open fail with an exception \<open>e\<close> other than
  \<^verbatim>\<open>FileExistsError\<close>. The session raises; it never enters the second part and never
  runs the scope: the only calls it makes are the open and, possibly, an unlink of the
  destination. If \<open>e\<close> is not an \<^verbatim>\<open>Exception\<close>, it is raised at once, with no unlink
  and no change to any file. If \<open>e\<close> is an \<^verbatim>\<open>Exception\<close> and no file is at the
  destination, the session does call \<^verbatim>\<open>filename.unlink()\<close> once, which changes no file:
  when that unlink does not fail, or fails with \<^verbatim>\<open>FileNotFoundError\<close>, \<open>e\<close> is raised;
  when it fails otherwise, its exception is raised instead. Nothing is said of a file
  that is at the destination.
\<close>

theorem exclusive_open_failure:
  assumes "fault env OpenX = Some e" and "e \<noteq> FileExistsError"
  shows "fst (atomic_overwrite env D body w) \<noteq> None
       \<and> set (drop (length (calls w)) (calls (snd (atomic_overwrite env D body w))))
           \<subseteq> {Open D ''xb'', Unlink D}
       \<and> (\<not> is_Exception e \<longrightarrow>
            fst (atomic_overwrite env D body w) = Some e
            \<and> files (snd (atomic_overwrite env D body w)) = files w
            \<and> calls (snd (atomic_overwrite env D body w)) = calls w @ [Open D ''xb''])
       \<and> (is_Exception e \<and> files w D = None \<longrightarrow>
            files (snd (atomic_overwrite env D body w)) = files w
            \<and> calls (snd (atomic_overwrite env D body w)) = calls w @ [Open D ''xb'', Unlink D]
            \<and> (fault env UnlinkDest = None \<or> fault env UnlinkDest = Some FileNotFoundError \<longrightarrow>
                 fst (atomic_overwrite env D body w) = Some e)
            \<and> (\<forall>ue. fault env UnlinkDest = Some ue \<and> ue \<noteq> FileNotFoundError \<longrightarrow>
                 fst (atomic_overwrite env D body w) = Some ue))"
proof -
  note run = failed_exclusive_open_run [OF assms, of D body w]
  from run have raised: "fst (atomic_overwrite env D body w) \<noteq> None"
    by (elim conjE)
  from run have log: "calls (snd (atomic_overwrite env D body w))
           = calls w @ (if is_Exception e then [Open D ''xb'', Unlink D] else [Open D ''xb''])"
    by (elim conjE)
  from log have only: "set (drop (length (calls w)) (calls (snd (atomic_overwrite env D body w))))
           \<subseteq> {Open D ''xb'', Unlink D}"
    by simp
  have passed: "fst (atomic_overwrite env D body w) = Some e
            \<and> files (snd (atomic_overwrite env D body w)) = files w
            \<and> calls (snd (atomic_overwrite env D body w)) = calls w @ [Open D ''xb'']"
    if "\<not> is_Exception e"
    using run log that by simp
  have absent: "files (snd (atomic_overwrite env D body w)) = files w
            \<and> calls (snd (atomic_overwrite env D body w)) = calls w @ [Open D ''xb'', Unlink D]
            \<and> (fault env UnlinkDest = None \<or> fault env UnlinkDest = Some FileNotFoundError \<longrightarrow>
                 fst (atomic_overwrite env D body w) = Some e)
            \<and> (\<forall>ue. fault env UnlinkDest = Some ue \<and> ue \<noteq> FileNotFoundError \<longrightarrow>
                 fst (atomic_overwrite env D body w) = Some ue)"
    if exc: "is_Exception e" and none: "files w D = None"
  proof (cases "fault env UnlinkDest")
    case None
    with run exc none log show ?thesis by (simp add: fun_upd_idem)
  next
    case (Some ue)
    with run exc log show ?thesis by (cases "ue = FileNotFoundError") simp_all
  qed
  from raised only passed absent show ?thesis by blast
qed

theorem exclusive_open_failure_witness:
  "atomic_overwrite (one_fault OpenX PermissionError ''x1'') [''out'', ''d.pdf'']
      (writes ''new'' None) \<lparr>files = Map.empty, calls = []\<rparr>
     = (Some PermissionError,
        \<lparr>files = Map.empty,
         calls = [Open [''out'', ''d.pdf''] ''xb'', Unlink [''out'', ''d.pdf'']]\<rparr>)"
proof -
  let ?env = "one_fault OpenX PermissionError ''x1''"
  let ?w = "\<lparr>files = Map.empty, calls = []\<rparr>"
  have a: "fault ?env OpenX = Some PermissionError" by (simp add: one_fault_def)
  have b: "PermissionError \<noteq> FileExistsError" by simp
  have c: "fault ?env UnlinkDest = None" by (simp add: one_fault_def)
  have d: "is_Exception PermissionError \<and> files ?w [''out'', ''d.pdf''] = None" by simp
  from exclusive_open_failure [OF a b, of "[''out'', ''d.pdf'']" "writes ''new'' None" ?w] c d
  show ?thesis
    by (cases "atomic_overwrite ?env [''out'', ''d.pdf''] (writes ''new'' None) ?w")
      (simp add: world.equality)
qed

text \<open>
  What the amended statement leaves out: when a file is at the destination and the
  exclusive open fails otherwise than with \<^verbatim>\<open>FileExistsError\<close> (the process is out of
  file descriptors, say), the unlink of the handler removes that file.
\<close>

lemma failed_open_removes_existing_destination:
  "fst (atomic_overwrite (one_fault OpenX OtherOSError ''x1'') [''out'', ''d.pdf'']
          (writes ''new'' None) \<lparr>files = [[''out'', ''d.pdf''] \<mapsto> ''old''], calls = []\<rparr>)
     = Some OtherOSError
   \<and> files (snd (atomic_overwrite (one_fault OpenX OtherOSError ''x1'') [''out'', ''d.pdf'']
          (writes ''new'' None) \<lparr>files = [[''out'', ''d.pdf''] \<mapsto> ''old''], calls = []\<rparr>))
        [''out'', ''d.pdf''] = None"
  by (simp add: session_eval)

subsection \<open>A failing write scope in exclusive-create mode\<close>

text \<open>
  C3 as stated, refuted by a scope that is interrupted: the destination does not exist,
  the scope writes two bytes and raises \<^verbatim>\<open>KeyboardInterrupt\<close>, which
  \<^verbatim>\<open>except Exception\<close> does not catch. The session makes no unlink call and the
  destination stays behind with the partial content.
\<close>

theorem exclusive_interrupt_leaves_partial_file:
  "atomic_overwrite (no_faults ''x1'') [''out'', ''d.pdf''] (writes ''he'' (Some KeyboardInterrupt))
      \<lparr>files = Map.empty, calls = []\<rparr>
     = (Some KeyboardInterrupt,
        \<lparr>files = [[''out'', ''d.pdf''] \<mapsto> ''he''],
         calls = [Open [''out'', ''d.pdf''] ''xb'', Scope [''out'', ''d.pdf''],
                  Close [''out'', ''d.pdf'']]\<rparr>)"
  by (simp add: session_eval)

text \<open>
  C3 as amended: let the destination not exist and the exclusive open succeed. If the
  scope, after writing \<open>B\<close>, raises an \<^verbatim>\<open>Exception\<close> other than
  \<^verbatim>\<open>FileExistsError\<close>, and neither the close of the stream nor the unlink fails, then the
  session unlinks the destination and raises that same exception: the destination does
  not exist afterwards and every file is as it was before the session.
\<close>

theorem exclusive_scope_failure_unlinks:
  assumes "files w D = None" and "fault env OpenX = None"
    and "is_Exception e" and "e \<noteq> FileExistsError"
    and "fault env CloseX = None" and "fault env UnlinkDest = None"
  shows "fst (atomic_overwrite env D (writes B (Some e)) w) = Some e
       \<and> files (snd (atomic_overwrite env D (writes B (Some e)) w)) D = None
       \<and> files (snd (atomic_overwrite env D (writes B (Some e)) w)) = files w
       \<and> calls (snd (atomic_overwrite env D (writes B (Some e)) w))
           = calls w @ [Open D ''xb'', Scope D, Close D, Unlink D]"
proof -
  obtain r1 w1 where o: "open_x env D w = (r1, w1)"
    by (cases "open_x env D w")
  from o assms(1,2) have r1: "r1 = None"
    by (auto simp: open_x_def logged_def Let_def)
  obtain r2 w2 where s: "run_scope (writes B (Some e)) D w1 = (r2, w2)"
    by (cases "run_scope (writes B (Some e)) D w1")
  obtain r3 w3 where c: "close_after env CloseX D (r2, w2) = (r3, w3)"
    by (cases "close_after env CloseX D (r2, w2)")
  obtain r4 w4 where u: "unlink env UnlinkDest D w3 = (r4, w4)"
    by (cases "unlink env UnlinkDest D w3")
  have f1: "files w1 = (files w)(D \<mapsto> [])"
    using open_x_result(2) [OF o r1] by simp
  have r2: "r2 = Some e" and f2: "files w2 = (files w)(D \<mapsto> B)"
    using run_scope_writes(1) [OF s] run_scope_writes(3) [OF s, of "[]"] f1 by simp_all
  have r3: "r3 = Some e" and f3: "files w3 = (files w)(D \<mapsto> B)"
    using close_after_result(2,3) [OF c] assms(5) r2 f2 by simp_all
  have r4: "r4 = None"
    using unlink_result(6) [OF u assms(6)] f3 by simp
  have f4: "files w4 = files w"
    using unlink_result(2) [OF u r4] f3 assms(1) by (simp add: fun_upd_idem)
  have log: "calls w4 = calls w @ [Open D ''xb'', Scope D, Close D, Unlink D]"
    using open_x_result(1) [OF o] run_scope_writes(2) [OF s] close_after_result(1) [OF c]
      unlink_result(1) [OF u] by simp
  have "atomic_overwrite env D (writes B (Some e)) w = (Some e, w4)"
    using o r1 s c r3 u r4 assms(3,4)
    by (simp add: atomic_overwrite_def exclusive_failed_def cleanup_exclusive_def
        suppress_FileNotFoundError_def)
  with f4 log assms(1) show ?thesis by simp
qed

theorem exclusive_scope_failure_unlinks_witness:
  "atomic_overwrite (no_faults ''x1'') [''out'', ''d.pdf''] (writes ''he'' (Some ValueError))
      \<lparr>files = Map.empty, calls = []\<rparr>
     = (Some ValueError,
        \<lparr>files = Map.empty,
         calls = [Open [''out'', ''d.pdf''] ''xb'', Scope [''out'', ''d.pdf''],
                  Close [''out'', ''d.pdf''], Unlink [''out'', ''d.pdf'']]\<rparr>)"
proof -
  let ?env = "no_faults ''x1''"
  let ?w = "\<lparr>files = Map.empty, calls = []\<rparr>"
  have a: "files ?w [''out'', ''d.pdf''] = None" by simp
  have b: "fault ?env OpenX = None" by (simp add: no_faults_def)
  have c: "is_Exception ValueError" by simp
  have d: "ValueError \<noteq> FileExistsError" by simp
  have e: "fault ?env CloseX = None" by (simp add: no_faults_def)
  have f: "fault ?env UnlinkDest = None" by (simp add: no_faults_def)
  from exclusive_scope_failure_unlinks [OF a b c d e f, of "''he''"]
  show ?thesis
    by (cases "atomic_overwrite ?env [''out'', ''d.pdf''] (writes ''he'' (Some ValueError)) ?w")
      (simp add: world.equality)
qed

text \<open>
  The exception left out of the amended statement: a scope that raises
  \<^verbatim>\<open>FileExistsError\<close> in exclusive-create mode is caught by the inner
  \<^verbatim>\<open>except FileExistsError: pass\<close>, the generator goes on to the second part and
  yields again. The session ends in \<^verbatim>\<open>RuntimeError\<close>, the destination keeps the
  partial content and an empty staging file is left behind.
\<close>

lemma exclusive_FileExistsError_is_swallowed:
  "atomic_overwrite (no_faults ''x1'') [''out'', ''d.pdf''] (writes ''he'' (Some FileExistsError))
      \<lparr>files = Map.empty, calls = []\<rparr>
     = (Some RuntimeError,
        \<lparr>files = [[''out'', ''d.pdf''] \<mapsto> ''he'', [''out'', ''.pikepdf.d.pdfx1''] \<mapsto> []],
         calls = [Open [''out'', ''d.pdf''] ''xb'', Scope [''out'', ''d.pdf''],
                  Close [''out'', ''d.pdf''], Open [''out'', ''d.pdf''] ''ab'',
                  Close [''out'', ''d.pdf''],
                  NamedTemporaryFile [''out''] ''.pikepdf.d.pdf'']\<rparr>)"
  by (simp add: session_eval)

subsection \<open>A failing write scope in temp-then-rename mode\<close>

lemma staged_scope:
  assumes "files w D = Some old" and "fault env OpenX = None"
    and "fault env OpenA = None" and "fault env CloseA = None" and "fault env MkTemp = None"
    and "files w (staging_path env D) = None"
  shows "atomic_overwrite env D (writes B r) w
       = finish_temp env D (staging_path env D) r
           (w\<lparr>files := (files w)(staging_path env D \<mapsto> B),
              calls := calls w @
                [Open D ''xb'', Open D ''ab'', Close D,
                 NamedTemporaryFile (parent D) (''.pikepdf.'' @ name D),
                 Scope (staging_path env D)]\<rparr>)"
proof -
  let ?tf = "staging_path env D"
  let ?w0 = "logged (Open D ''xb'') w"
  let ?w1 = "w\<lparr>calls := calls w @ [Open D ''xb'', Open D ''ab'', Close D]\<rparr>"
  let ?w2 = "w\<lparr>files := (files w)(?tf \<mapsto> []),
      calls := calls w @ [Open D ''xb'', Open D ''ab'', Close D,
                 NamedTemporaryFile (parent D) (''.pikepdf.'' @ name D)]\<rparr>"
  have enter: "atomic_overwrite env D (writes B r) w = temp_then_rename env D (writes B r) False ?w0"
    using assms(1,2) by (rule enters_temp_then_rename)
  have p: "probe_writable env D ?w0 = (None, ?w1)"
    using assms(1,3,4)
    by (simp add: probe_writable_def open_a_def close_after_def close_def logged_def Let_def)
  have t: "named_temporary_file env (parent D) (''.pikepdf.'' @ name D) ?w1 = (None, ?w2)"
    using assms(5,6)
    by (simp add: named_temporary_file_def logged_def Let_def staging_path_def)
  have s: "run_scope (writes B r) ?tf ?w2
       = (r, w\<lparr>files := (files w)(?tf \<mapsto> B),
              calls := calls w @
                [Open D ''xb'', Open D ''ab'', Close D,
                 NamedTemporaryFile (parent D) (''.pikepdf.'' @ name D), Scope ?tf]\<rparr>)"
    by (simp add: run_scope_def writes_def logged_def)
  show ?thesis
    unfolding enter temp_then_rename_def p
    using t s
    by (simp only: staging_path_def prod.case option.case Let_def if_False)
qed

lemma finish_temp_cleanup:
  assumes "is_Exception e" and "fault env CloseTmp = None" and "fault env UnlinkTmp = None"
    and "files w tf \<noteq> None"
  shows "finish_temp env D tf (Some e) w
       = (Some e, w\<lparr>files := (files w)(tf := None), calls := calls w @ [Close tf, Unlink tf]\<rparr>)"
  using assms by (auto simp: finish_temp_def close_def unlink_def logged_def Let_def)

lemma finish_temp_failure_frame:
  assumes "q \<noteq> tf"
  shows "files (snd (finish_temp env D tf (Some e) w)) q = files w q"
  using assms
  by (auto simp: finish_temp_def close_def close_after_def unlink_def logged_def Let_def
      split: option.splits)

text \<open>
  C2 as stated, refuted by a scope that is interrupted: the destination exists, the scope
  writes two bytes to the staging file and raises \<^verbatim>\<open>KeyboardInterrupt\<close>. The handler
  \<^verbatim>\<open>except Exception\<close> does not run: the staging file is closed, not deleted, and stays
  in the directory with the two bytes.
\<close>

theorem staged_interrupt_leaves_staging_file:
  "atomic_overwrite (no_faults ''x1'') [''out'', ''d.pdf''] (writes ''ne'' (Some KeyboardInterrupt))
      \<lparr>files = [[''out'', ''d.pdf''] \<mapsto> ''old''], calls = []\<rparr>
     = (Some KeyboardInterrupt,
        \<lparr>files = [[''out'', ''d.pdf''] \<mapsto> ''old'', [''out'', ''.pikepdf.d.pdfx1''] \<mapsto> ''ne''],
         calls = [Open [''out'', ''d.pdf''] ''xb'', Open [''out'', ''d.pdf''] ''ab'',
                  Close [''out'', ''d.pdf''],
                  NamedTemporaryFile [''out''] ''.pikepdf.d.pdf'',
                  Scope [''out'', ''.pikepdf.d.pdfx1''],
                  Close [''out'', ''.pikepdf.d.pdfx1'']]\<rparr>)"
  by (simp add: session_eval)

text \<open>
  C2 as amended: let the destination exist with content \<open>old\<close> and let the session reach
  the write scope (the probe and the creation of the staging file do not fail). Whatever
  the scope raises after writing \<open>B\<close>, and whatever the cleanup does, the destination
  holds \<open>old\<close> afterwards. If what the scope raises is an \<^verbatim>\<open>Exception\<close> and neither the
  close nor the unlink of the staging file fails, the session deletes the staging file
  and raises that same exception, every file is as before the session, and the
  destination was opened only by the failed exclusive open and by the probe.
\<close>

theorem staged_scope_failure:
  assumes "files w D = Some old" and "fault env OpenX = None"
    and "fault env OpenA = None" and "fault env CloseA = None" and "fault env MkTemp = None"
    and "files w (staging_path env D) = None"
  shows "files (snd (atomic_overwrite env D (writes B (Some e)) w)) D = Some old
       \<and> (is_Exception e \<and> fault env CloseTmp = None \<and> fault env UnlinkTmp = None \<longrightarrow>
            fst (atomic_overwrite env D (writes B (Some e)) w) = Some e
            \<and> files (snd (atomic_overwrite env D (writes B (Some e)) w)) (staging_path env D) = None
            \<and> files (snd (atomic_overwrite env D (writes B (Some e)) w)) = files w
            \<and> calls (snd (atomic_overwrite env D (writes B (Some e)) w))
                = calls w @
                  [Open D ''xb'', Open D ''ab'', Close D,
                   NamedTemporaryFile (parent D) (''.pikepdf.'' @ name D),
                   Scope (staging_path env D), Close (staging_path env D),
                   Unlink (staging_path env D)])"
proof -
  let ?tf = "staging_path env D"
  let ?w3 = "w\<lparr>files := (files w)(?tf \<mapsto> B),
              calls := calls w @
                [Open D ''xb'', Open D ''ab'', Close D,
                 NamedTemporaryFile (parent D) (''.pikepdf.'' @ name D), Scope ?tf]\<rparr>"
  have run: "atomic_overwrite env D (writes B (Some e)) w = finish_temp env D ?tf (Some e) ?w3"
    using assms by (rule staged_scope)
  have ne: "D \<noteq> ?tf"
    using assms(1,6) by auto
  have kept: "files (snd (atomic_overwrite env D (writes B (Some e)) w)) D = Some old"
    using run assms(1) ne
    by (simp add: finish_temp_failure_frame)
  have cleaned: "atomic_overwrite env D (writes B (Some e)) w
       = (Some e, w\<lparr>calls := calls w @
                  [Open D ''xb'', Open D ''ab'', Close D,
                   NamedTemporaryFile (parent D) (''.pikepdf.'' @ name D),
                   Scope ?tf, Close ?tf, Unlink ?tf]\<rparr>)"
    if "is_Exception e" and "fault env CloseTmp = None" and "fault env UnlinkTmp = None"
  proof -
    have "files ?w3 ?tf \<noteq> None" by simp
    from finish_temp_cleanup [OF that this, of D] run assms(6) show ?thesis
      by (simp add: fun_upd_idem)
  qed
  from kept cleaned assms(6) show ?thesis by auto
qed

theorem staged_scope_failure_witness:
  "atomic_overwrite (no_faults ''x1'') [''out'', ''d.pdf''] (writes ''ne'' (Some ValueError))
      \<lparr>files = [[''out'', ''d.pdf''] \<mapsto> ''old''], calls = []\<rparr>
     = (Some ValueError,
        \<lparr>files = [[''out'', ''d.pdf''] \<mapsto> ''old''],
         calls = [Open [''out'', ''d.pdf''] ''xb'', Open [''out'', ''d.pdf''] ''ab'',
                  Close [''out'', ''d.pdf''],
                  NamedTemporaryFile [''out''] ''.pikepdf.d.pdf'',
                  Scope [''out'', ''.pikepdf.d.pdfx1''],
                  Close [''out'', ''.pikepdf.d.pdfx1''],
                  Unlink [''out'', ''.pikepdf.d.pdfx1'']]\<rparr>)"
proof -
  let ?env = "no_faults ''x1''"
  let ?D = "[''out'', ''d.pdf'']"
  let ?w = "\<lparr>files = [?D \<mapsto> ''old''], calls = []\<rparr>"
  have a: "files ?w ?D = Some ''old''" by simp
  have b: "fault ?env OpenX = None" and c: "fault ?env OpenA = None"
    and d: "fault ?env CloseA = None" and e: "fault ?env MkTemp = None"
    by (simp_all add: no_faults_def)
  have f: "files ?w (staging_path ?env ?D) = None"
    by (simp add: staging_path_def temp_name_def parent_def name_def no_faults_def)
  have g: "is_Exception ValueError \<and> fault ?env CloseTmp = None \<and> fault ?env UnlinkTmp = None"
    by (simp add: no_faults_def)
  have h: "staging_path ?env ?D = [''out'', ''.pikepdf.d.pdfx1'']"
    by (simp add: staging_path_def temp_name_def parent_def name_def no_faults_def)
  from staged_scope_failure [OF a b c d e f, of "''ne''" ValueError] g h
  show ?thesis
    by (cases "atomic_overwrite ?env ?D (writes ''ne'' (Some ValueError)) ?w")
      (simp add: world.equality parent_def name_def)
qed

subsection \<open>Cleanup when the file is already gone\<close>

text \<open>
  C6, at the input where the two cleanup branches differ. The scope removes the file
  behind its handle and raises \<^verbatim>\<open>ValueError\<close>. With the destination existing, the
  handle is the staging file: \<^verbatim>\<open>Path(tf.name).unlink()\<close> is not under
  \<^verbatim>\<open>suppress(FileNotFoundError)\<close>, so the session raises \<^verbatim>\<open>FileNotFoundError\<close> in
  place of the scope's \<^verbatim>\<open>ValueError\<close>. With the destination missing, the handle is the
  destination: \<^verbatim>\<open>filename.unlink()\<close> is under \<^verbatim>\<open>suppress(FileNotFoundError)\<close> and the
  session raises the scope's \<^verbatim>\<open>ValueError\<close>.
\<close>

theorem staging_unlink_not_suppressed:
  "fst (atomic_overwrite (no_faults ''x1'') [''out'', ''d.pdf''] (removes_then_raises ValueError)
          \<lparr>files = [[''out'', ''d.pdf''] \<mapsto> ''old''], calls = []\<rparr>) = Some FileNotFoundError
   \<and> fst (atomic_overwrite (no_faults ''x1'') [''out'', ''d.pdf''] (removes_then_raises ValueError)
          \<lparr>files = Map.empty, calls = []\<rparr>) = Some ValueError"
  by (simp add: session_eval)

subsection \<open>Staging files after a session\<close>

lemma staging_pattern_not_dest:
  assumes "staging_pattern D q"
  shows "q \<noteq> D"
proof
  assume "q = D"
  with assms have "prefix (''.pikepdf.'' @ name D) (name D)"
    by (simp add: staging_pattern_def)
  then have "length (''.pikepdf.'' @ name D) \<le> length (name D)"
    by (rule prefix_length_le)
  then show False by simp
qed

lemma staging_path_matches_pattern:
  "staging_pattern D (staging_path env D)"
  by (simp add: staging_pattern_def staging_path_def temp_name_def parent_def name_def)

lemma temp_name_not_dest:
  "temp_name env (parent D) (''.pikepdf.'' @ name D) \<noteq> D"
  using staging_pattern_not_dest [OF staging_path_matches_pattern [of D env]]
  by (simp add: staging_path_def)

text \<open>
  The second part, entered before the first yield, changes no file but the destination
  and the staging file; and it leaves the staging name free when the scope returns and
  the session ends without an error, or when the scope raises an \<^verbatim>\<open>Exception\<close> and the
  cleanup does not fail.
\<close>

lemma temp_then_rename_commit_frame:
  assumes "temp_then_rename env D (writes B None) resumed w = (None, w')"
    and "q \<noteq> D"
  shows "files w' q = files w q"
proof -
  let ?tf = "temp_name env (parent D) (''.pikepdf.'' @ name D)"
  obtain r1 w1 where p: "probe_writable env D w = (r1, w1)"
    by (cases "probe_writable env D w")
  obtain r2 w2 where t: "named_temporary_file env (parent D) (''.pikepdf.'' @ name D) w1 = (r2, w2)"
    by (cases "named_temporary_file env (parent D) (''.pikepdf.'' @ name D) w1")
  obtain r3 w3 where s: "run_scope (writes B None) ?tf w2 = (r3, w3)"
    by (cases "run_scope (writes B None) ?tf w2")
  from assms(1) p t s have r2: "r2 = None"
    and fin: "finish_temp env D ?tf r3 w3 = (None, w')"
    by (auto simp: temp_then_rename_def Let_def split: option.splits if_splits)
  have f1: "files w1 x = files w x" if "x \<noteq> D" for x
    using probe_writable_result(2) [OF p that] .
  from named_temporary_file_result(2) [OF t r2]
  have fresh1: "files w1 ?tf = None" and f2: "files w2 = (files w1)(?tf \<mapsto> [])"
    by simp_all
  from fresh1 f1 [OF temp_name_not_dest] have fresh: "files w ?tf = None"
    by simp
  from run_scope_writes(1) [OF s] run_scope_writes(3) [OF s, of "[]"] f2
  have r3: "r3 = None" and f3: "files w3 = (files w1)(?tf \<mapsto> B)"
    by simp_all
  from fin r3 have "files w' = ((files w3)(?tf := None))(D := files w3 ?tf)"
    by (simp add: finish_temp_commit(2))
  with f3 assms(2) have "files w' q = (if q = ?tf then None else files w1 q)"
    by simp
  with f1 [OF assms(2)] fresh show ?thesis
    by (cases "q = ?tf") simp_all
qed

lemma temp_then_rename_cleanup_frame:
  assumes "is_Exception e" and "fault env CloseTmp = None" and "fault env UnlinkTmp = None"
    and "q \<noteq> D"
  shows "files (snd (temp_then_rename env D (writes B (Some e)) False w)) q = files w q"
proof -
  let ?tf = "temp_name env (parent D) (''.pikepdf.'' @ name D)"
  obtain r1 w1 where p: "probe_writable env D w = (r1, w1)"
    by (cases "probe_writable env D w")
  obtain r2 w2 where t: "named_temporary_file env (parent D) (''.pikepdf.'' @ name D) w1 = (r2, w2)"
    by (cases "named_temporary_file env (parent D) (''.pikepdf.'' @ name D) w1")
  obtain r3 w3 where s: "run_scope (writes B (Some e)) ?tf w2 = (r3, w3)"
    by (cases "run_scope (writes B (Some e)) ?tf w2")
  have f1: "files w1 q = files w q"
    using probe_writable_result(2) [OF p assms(4)] .
  show ?thesis
  proof (cases r1)
    case (Some e1)
    with p f1 show ?thesis by (simp add: temp_then_rename_def)
  next
    case None
    note r1 = this
    show ?thesis
    proof (cases r2)
      case (Some e2)
      with named_temporary_file_result(3) [OF t] f1 have "files w2 q = files w q" by simp
      with p r1 t Some show ?thesis by (simp add: temp_then_rename_def)
    next
      case None
      from named_temporary_file_result(2) [OF t None]
      have fresh1: "files w1 ?tf = None" and f2: "files w2 = (files w1)(?tf \<mapsto> [])"
        by simp_all
      from run_scope_writes(1) [OF s] run_scope_writes(3) [OF s, of "[]"] f2
      have r3: "r3 = Some e" and f3: "files w3 = (files w1)(?tf \<mapsto> B)"
        by simp_all
      then have "files w3 ?tf \<noteq> None" by simp
      from finish_temp_cleanup [OF assms(1,2,3) this, of D] f3
      have "files (snd (finish_temp env D ?tf (Some e) w3)) = (files w1)(?tf := None)"
        by simp
      with fresh1 f1 have "files (snd (finish_temp env D ?tf (Some e) w3)) q = files w q"
        by (cases "q = ?tf") simp_all
      with p r1 t None s r3 show ?thesis
        by (simp add: temp_then_rename_def Let_def)
    qed
  qed
qed

lemma exclusive_open_raises_FileExistsError:
  assumes "fst (open_x env D w) = Some FileExistsError"
  shows "atomic_overwrite env D body w = temp_then_rename env D body False (snd (open_x env D w))"
    and "files (snd (open_x env D w)) = files w"
proof -
  obtain r w0 where o: "open_x env D w = (r, w0)"
    by (cases "open_x env D w")
  with assms have r: "r = Some FileExistsError" by simp
  with o show "atomic_overwrite env D body w
      = temp_then_rename env D body False (snd (open_x env D w))"
    by (simp add: atomic_overwrite_def exclusive_failed_def)
  from open_x_result(3) [OF o] r o show "files (snd (open_x env D w)) = files w"
    by simp
qed

text \<open>
  C4 as stated, refuted by a scope that is interrupted: the destination exists, so the
  session enters temp-then-rename mode; the scope writes to the staging file and raises
  \<^verbatim>\<open>KeyboardInterrupt\<close>, which \<^verbatim>\<open>except Exception\<close> does not catch. The session fails
  and a file that was not there before, under a name that matches the staging pattern,
  remains in the parent directory of the destination.
\<close>

theorem interrupt_leaves_file_matching_staging_pattern:
  "fst (atomic_overwrite (no_faults ''k9'') [''report.pdf'']
          (writes ''v2'' (Some KeyboardInterrupt))
          \<lparr>files = [[''report.pdf''] \<mapsto> ''v1''], calls = []\<rparr>) = Some KeyboardInterrupt
   \<and> files (snd (atomic_overwrite (no_faults ''k9'') [''report.pdf'']
          (writes ''v2'' (Some KeyboardInterrupt))
          \<lparr>files = [[''report.pdf''] \<mapsto> ''v1''], calls = []\<rparr>))
        [''.pikepdf.report.pdfk9''] = Some ''v2''
   \<and> files \<lparr>files = [[''report.pdf''] \<mapsto> ''v1''], calls = []\<rparr> [''.pikepdf.report.pdfk9''] = None
   \<and> staging_pattern [''report.pdf''] [''.pikepdf.report.pdfk9'']"
  by (simp add: session_eval staging_pattern_def)

text \<open>
  C4 as amended: let the session enter temp-then-rename mode because its exclusive open
  raises \<^verbatim>\<open>FileExistsError\<close>. If the scope returns and the session ends without an
  error, or if the scope raises an \<^verbatim>\<open>Exception\<close> and neither the close nor the unlink of
  the staging file fails, then every path that matches the staging pattern of the
  destination holds after the session what it held before: the session leaves no
  staging file of its own.
\<close>

theorem no_staging_file_left:
  assumes "fst (open_x env D w) = Some FileExistsError"
    and "(r = None \<and> fst (atomic_overwrite env D (writes B r) w) = None)
       \<or> (\<exists>e. r = Some e \<and> is_Exception e
              \<and> fault env CloseTmp = None \<and> fault env UnlinkTmp = None)"
  shows "\<forall>q. staging_pattern D q \<longrightarrow>
           files (snd (atomic_overwrite env D (writes B r) w)) q = files w q"
proof (intro allI impI)
  fix q
  assume pat: "staging_pattern D q"
  then have ne: "q \<noteq> D" by (rule staging_pattern_not_dest)
  let ?w0 = "snd (open_x env D w)"
  have enter: "atomic_overwrite env D (writes B r) w = temp_then_rename env D (writes B r) False ?w0"
    using assms(1) by (rule exclusive_open_raises_FileExistsError(1))
  have f0: "files ?w0 = files w"
    using assms(1) by (rule exclusive_open_raises_FileExistsError(2))
  from assms(2) show "files (snd (atomic_overwrite env D (writes B r) w)) q = files w q"
  proof
    assume ok: "r = None \<and> fst (atomic_overwrite env D (writes B r) w) = None"
    then have rn: "r = None"
      by (rule conjunct1)
    from ok have "fst (atomic_overwrite env D (writes B r) w) = None"
      by (rule conjunct2)
    then have "fst (temp_then_rename env D (writes B r) False ?w0) = None"
      by (simp only: enter)
    then obtain w' where run: "temp_then_rename env D (writes B None) False ?w0 = (None, w')"
      unfolding rn by (cases "temp_then_rename env D (writes B None) False ?w0") auto
    from temp_then_rename_commit_frame [OF run ne] f0 have "files w' q = files w q"
      by simp
    with rn enter run show ?thesis by simp
  next
    assume "\<exists>e. r = Some e \<and> is_Exception e
              \<and> fault env CloseTmp = None \<and> fault env UnlinkTmp = None"
    then obtain e where r: "r = Some e" and c: "is_Exception e"
      "fault env CloseTmp = None" "fault env UnlinkTmp = None"
      by blast
    from temp_then_rename_cleanup_frame [OF c ne, where B = B and w = ?w0] f0 enter r show ?thesis
      by simp
  qed
qed

theorem no_staging_file_left_witness:
  "files (snd (atomic_overwrite (no_faults ''x1'') [''out'', ''d.pdf''] (writes ''new'' None)
          \<lparr>files = [[''out'', ''d.pdf''] \<mapsto> ''old''], calls = []\<rparr>))
        [''out'', ''.pikepdf.d.pdfx1''] = None"
proof -
  let ?env = "no_faults ''x1''"
  let ?D = "[''out'', ''d.pdf'']"
  let ?w = "\<lparr>files = [?D \<mapsto> ''old''], calls = []\<rparr>"
  have a: "fst (open_x ?env ?D ?w) = Some FileExistsError"
    by (simp add: open_x_def logged_def no_faults_def Let_def)
  have c: "(None = None \<and> fst (atomic_overwrite ?env ?D (writes ''new'' None) ?w) = None)
       \<or> (\<exists>e. None = Some e \<and> is_Exception e
              \<and> fault ?env CloseTmp = None \<and> fault ?env UnlinkTmp = None)"
    by (simp add: session_eval)
  have d: "staging_pattern ?D [''out'', ''.pikepdf.d.pdfx1'']"
    by (simp add: staging_pattern_def parent_def name_def)
  from no_staging_file_left [OF a c] d show ?thesis
    by simp
qed

text \<open>
  What the amended statement leaves out: a failure after the scope has returned. Here
  \<^verbatim>\<open>tf.flush()\<close> raises; the handler around the \<^verbatim>\<open>yield\<close> is already left, nothing
  deletes the staging file, and it stays in the parent directory.
\<close>

lemma failed_flush_leaves_staging_file:
  "fst (atomic_overwrite (one_fault FlushTmp OtherOSError ''x1'') [''out'', ''d.pdf'']
          (writes ''new'' None) \<lparr>files = [[''out'', ''d.pdf''] \<mapsto> ''old''], calls = []\<rparr>)
     = Some OtherOSError
   \<and> files (snd (atomic_overwrite (one_fault FlushTmp OtherOSError ''x1'') [''out'', ''d.pdf'']
          (writes ''new'' None) \<lparr>files = [[''out'', ''d.pdf''] \<mapsto> ''old''], calls = []\<rparr>))
        [''out'', ''.pikepdf.d.pdfx1''] = Some ''new''
   \<and> staging_pattern [''out'', ''d.pdf''] [''out'', ''.pikepdf.d.pdfx1'']"
  by (simp add: session_eval staging_pattern_def)

subsection \<open>Commit correctness\<close>

lemma exclusive_commit:
  assumes "files w D = None" and "fault env OpenX = None" and "fault env CloseX = None"
  shows "atomic_overwrite env D (writes B None) w
       = (None, w\<lparr>files := (files w)(D \<mapsto> B),
                  calls := calls w @ [Open D ''xb'', Scope D, Close D]\<rparr>)"
  using assms
  by (simp add: atomic_overwrite_def open_x_def run_scope_def writes_def close_after_def
      close_def logged_def Let_def)

lemma staged_commit:
  assumes "files w D = Some old" and "fault env OpenX = None"
    and "fault env OpenA = None" and "fault env CloseA = None" and "fault env MkTemp = None"
    and "files w (staging_path env D) = None"
    and "fault env FlushTmp = None" and "fault env CloseTmp = None"
    and "fault env ReplaceTmp = None"
  shows "atomic_overwrite env D (writes B None) w
       = (None, w\<lparr>files := (files w)(D \<mapsto> B),
                  calls := calls w @
                    [Open D ''xb'', Open D ''ab'', Close D,
                     NamedTemporaryFile (parent D) (''.pikepdf.'' @ name D),
                     Scope (staging_path env D), Flush (staging_path env D),
                     Close (staging_path env D), Replace (staging_path env D) D]\<rparr>)"
  using assms(6,7,8,9)
  unfolding staged_scope [OF assms(1,2,3,4,5,6)]
  by (simp add: finish_temp_def flush_def close_def replace_def logged_def Let_def fun_upd_idem)

text \<open>
  C1 as stated, refuted by a rename that fails: the destination exists with content
  \<^verbatim>\<open>old\<close>, the scope writes \<^verbatim>\<open>new\<close> and returns without raising, and
  \<^verbatim>\<open>Path(tf.name).replace(filename)\<close> raises \<^verbatim>\<open>PermissionError\<close>. The session fails and
  the destination still holds \<^verbatim>\<open>old\<close>, not the bytes written.
\<close>

theorem failed_rename_keeps_old_content:
  "fst (atomic_overwrite (one_fault ReplaceTmp PermissionError ''x1'') [''out'', ''d.pdf'']
          (writes ''new'' None) \<lparr>files = [[''out'', ''d.pdf''] \<mapsto> ''old''], calls = []\<rparr>)
     = Some PermissionError
   \<and> files (snd (atomic_overwrite (one_fault ReplaceTmp PermissionError ''x1'') [''out'', ''d.pdf'']
          (writes ''new'' None) \<lparr>files = [[''out'', ''d.pdf''] \<mapsto> ''old''], calls = []\<rparr>))
        [''out'', ''d.pdf''] = Some ''old''"
  by (simp add: session_eval)

text \<open>
  C1 as amended: let the write scope write the bytes \<open>B\<close> through the handle and return.
  If the session then ends without an error, the destination holds exactly \<open>B\<close>; it was
  written directly when the destination did not exist and the exclusive open was not
  made to fail, and through the staging file when the destination existed (the calls
  show which). And the session does end without an error when no library call fails:
  on a missing destination, when neither the exclusive open nor the close of the stream
  fails, the session is the exclusive open, the scope on the destination and the close;
  on an existing destination, when none of the probe, the creation of the staging file
  under a free name, the flush, the close and the rename fails, the session is the
  failed exclusive open, the probe, the scope on the staging file, the flush, the close
  and the rename. In both cases only the destination changes, to \<open>B\<close>.
\<close>

theorem commit_correctness:
  "(fst (atomic_overwrite env D (writes B None) w) = None \<longrightarrow>
      files (snd (atomic_overwrite env D (writes B None) w)) D = Some B
      \<and> (files w D = None \<and> fault env OpenX = None \<longrightarrow>
           calls (snd (atomic_overwrite env D (writes B None) w))
             = calls w @ [Open D ''xb'', Scope D, Close D])
      \<and> (files w D \<noteq> None \<longrightarrow>
           calls (snd (atomic_overwrite env D (writes B None) w))
             = calls w @
               [Open D ''xb'', Open D ''ab'', Close D,
                NamedTemporaryFile (parent D) (''.pikepdf.'' @ name D),
                Scope (staging_path env D), Flush (staging_path env D),
                Close (staging_path env D), Replace (staging_path env D) D]))
   \<and> (files w D = None \<and> fault env OpenX = None \<and> fault env CloseX = None \<longrightarrow>
        atomic_overwrite env D (writes B None) w
          = (None, w\<lparr>files := (files w)(D \<mapsto> B),
                     calls := calls w @ [Open D ''xb'', Scope D, Close D]\<rparr>))
   \<and> (files w D \<noteq> None \<and> files w (staging_path env D) = None
        \<and> fault env OpenX = None \<and> fault env OpenA = None \<and> fault env CloseA = None
        \<and> fault env MkTemp = None \<and> fault env FlushTmp = None \<and> fault env CloseTmp = None
        \<and> fault env ReplaceTmp = None \<longrightarrow>
        atomic_overwrite env D (writes B None) w
          = (None, w\<lparr>files := (files w)(D \<mapsto> B),
                     calls := calls w @
                       [Open D ''xb'', Open D ''ab'', Close D,
                        NamedTemporaryFile (parent D) (''.pikepdf.'' @ name D),
                        Scope (staging_path env D), Flush (staging_path env D),
                        Close (staging_path env D), Replace (staging_path env D) D]\<rparr>))"
proof -
  have written: "files (snd (atomic_overwrite env D (writes B None) w)) D = Some B
      \<and> (files w D = None \<and> fault env OpenX = None \<longrightarrow>
           calls (snd (atomic_overwrite env D (writes B None) w))
             = calls w @ [Open D ''xb'', Scope D, Close D])
      \<and> (files w D \<noteq> None \<longrightarrow>
           calls (snd (atomic_overwrite env D (writes B None) w))
             = calls w @
               [Open D ''xb'', Open D ''ab'', Close D,
                NamedTemporaryFile (parent D) (''.pikepdf.'' @ name D),
                Scope (staging_path env D), Flush (staging_path env D),
                Close (staging_path env D), Replace (staging_path env D) D])"
    if "fst (atomic_overwrite env D (writes B None) w) = None"
    using that by (rule commit_if_no_error)
  have created: "atomic_overwrite env D (writes B None) w
          = (None, w\<lparr>files := (files w)(D \<mapsto> B),
                     calls := calls w @ [Open D ''xb'', Scope D, Close D]\<rparr>)"
    if "files w D = None \<and> fault env OpenX = None \<and> fault env CloseX = None"
    using that by (simp add: exclusive_commit)
  have replaced: "atomic_overwrite env D (writes B None) w
          = (None, w\<lparr>files := (files w)(D \<mapsto> B),
                     calls := calls w @
                       [Open D ''xb'', Open D ''ab'', Close D,
                        NamedTemporaryFile (parent D) (''.pikepdf.'' @ name D),
                        Scope (staging_path env D), Flush (staging_path env D),
                        Close (staging_path env D), Replace (staging_path env D) D]\<rparr>)"
    if h: "files w D \<noteq> None \<and> files w (staging_path env D) = None
        \<and> fault env OpenX = None \<and> fault env OpenA = None \<and> fault env CloseA = None
        \<and> fault env MkTemp = None \<and> fault env FlushTmp = None \<and> fault env CloseTmp = None
        \<and> fault env ReplaceTmp = None"
  proof -
    from h obtain old where "files w D = Some old" by blast
    with h show ?thesis by (simp add: staged_commit)
  qed
  from written created replaced show ?thesis
    by (intro conjI impI) blast+
qed

theorem commit_correctness_witness:
  "files (snd (atomic_overwrite (no_faults ''x1'') [''out'', ''d.pdf''] (writes ''hello'' None)
          \<lparr>files = Map.empty, calls = []\<rparr>)) [''out'', ''d.pdf''] = Some ''hello''
   \<and> files (snd (atomic_overwrite (no_faults ''x1'') [''out'', ''d.pdf''] (writes ''new-content'' None)
          \<lparr>files = [[''out'', ''d.pdf''] \<mapsto> ''old''], calls = []\<rparr>)) [''out'', ''d.pdf'']
       = Some ''new-content''"
proof -
  let ?env = "no_faults ''x1''"
  let ?D = "[''out'', ''d.pdf'']"
  let ?new = "\<lparr>files = Map.empty, calls = []\<rparr>"
  let ?old = "\<lparr>files = [?D \<mapsto> ''old''], calls = []\<rparr>"
  have a: "files ?new ?D = None \<and> fault ?env OpenX = None \<and> fault ?env CloseX = None"
    by (simp add: no_faults_def)
  have b: "files ?old ?D \<noteq> None \<and> files ?old (staging_path ?env ?D) = None
        \<and> fault ?env OpenX = None \<and> fault ?env OpenA = None \<and> fault ?env CloseA = None
        \<and> fault ?env MkTemp = None \<and> fault ?env FlushTmp = None \<and> fault ?env CloseTmp = None
        \<and> fault ?env ReplaceTmp = None"
    by (simp add: no_faults_def staging_path_def temp_name_def parent_def name_def)
  from commit_correctness [of ?env ?D "''hello''" ?new] a
  have "atomic_overwrite ?env ?D (writes ''hello'' None) ?new
      = (None, ?new\<lparr>files := (files ?new)(?D \<mapsto> ''hello''),
                     calls := calls ?new @ [Open ?D ''xb'', Scope ?D, Close ?D]\<rparr>)"
    by blast
  then have first: "files (snd (atomic_overwrite ?env ?D (writes ''hello'' None) ?new)) ?D
      = Some ''hello''"
    by simp
  from commit_correctness [of ?env ?D "''new-content''" ?old] b
  have "fst (atomic_overwrite ?env ?D (writes ''new-content'' None) ?old) = None"
    by (metis fst_conv)
  with commit_correctness [of ?env ?D "''new-content''" ?old]
  have "files (snd (atomic_overwrite ?env ?D (writes ''new-content'' None) ?old)) ?D
      = Some ''new-content''"
    by blast
  with first show ?thesis by simp
qed

end
